theory Spec2Isabelle
  imports Complex_Main
begin

section \<open>The operating system as a parameter\<close>

text \<open>
  \<^verbatim>\<open>build_third_party_libs.py\<close> deletes build directories through the Python standard
  library: \<^verbatim>\<open>pathlib\<close>, \<^verbatim>\<open>os\<close>, \<^verbatim>\<open>shutil\<close>, \<^verbatim>\<open>tempfile\<close>, \<^verbatim>\<open>uuid\<close>,
  \<^verbatim>\<open>subprocess\<close> and \<^verbatim>\<open>time\<close>. None of that is code of the repository, so the
  embedding takes every such primitive as a parameter: a record of functions over an
  arbitrary type of worlds \<open>'w\<close>. A primitive that the script calls inside a
  \<^verbatim>\<open>try\<close> block, or whose failure a claim speaks of, may raise; it then returns the
  exception next to the world it leaves behind. Theorems hold for every such record, hence
  for every file system, every platform and every interference by other processes that a
  world can encode.

  Modelling decisions:
  \<^item> a path is its string; \<^verbatim>\<open>p / name\<close> is the parameter \<open>path_join\<close>;
  \<^item> \<^verbatim>\<open>Path.exists\<close>, \<^verbatim>\<open>tempfile.gettempdir\<close> and \<^verbatim>\<open>uuid.uuid4\<close> are taken to
    return normally;
  \<^item> only exceptions derived from \<^verbatim>\<open>Exception\<close> are modelled (what
    \<^verbatim>\<open>except Exception\<close> catches);
  \<^item> \<^verbatim>\<open>delay\<close> is a rational number and \<^verbatim>\<open>delay * attempt\<close> is exact.
\<close>

type_synonym path = string

datatype exn =
    OSError
  | ValueError
  | CalledProcessError
  | RuntimeError string

text \<open>The functions that \<^verbatim>\<open>shutil.rmtree\<close> hands to its \<^verbatim>\<open>onerror\<close> callback.\<close>

datatype osfunc = os_path_islink | os_scandir | os_unlink | os_rmdir | os_lstat | os_open

record 'w env =
  os_name_posix :: bool
    \<comment> \<open>\<^verbatim>\<open>os.name == 'posix'\<close>\<close>
  os_sep :: string
    \<comment> \<open>\<^verbatim>\<open>os.sep\<close>\<close>
  path_join :: "path \<Rightarrow> string \<Rightarrow> path"
    \<comment> \<open>\<^verbatim>\<open>Path(p) / name\<close>\<close>
  path_exists :: "'w \<Rightarrow> path \<Rightarrow> bool"
    \<comment> \<open>\<^verbatim>\<open>Path(p).exists()\<close>\<close>
  path_cwd_resolve :: "'w \<Rightarrow> exn + path"
    \<comment> \<open>\<^verbatim>\<open>Path.cwd().resolve()\<close>\<close>
  path_resolve :: "'w \<Rightarrow> path \<Rightarrow> exn + path"
    \<comment> \<open>\<^verbatim>\<open>Path(p).resolve()\<close>\<close>
  tempfile_gettempdir :: "'w \<Rightarrow> path"
    \<comment> \<open>\<^verbatim>\<open>tempfile.gettempdir()\<close>\<close>
  uuid4_hex :: "'w \<Rightarrow> string \<times> 'w"
    \<comment> \<open>\<^verbatim>\<open>uuid.uuid4().hex\<close>, consuming randomness\<close>
  os_chdir :: "path \<Rightarrow> 'w \<Rightarrow> exn option \<times> 'w"
    \<comment> \<open>\<^verbatim>\<open>os.chdir(p)\<close>\<close>
  os_chmod_write :: "path \<Rightarrow> 'w \<Rightarrow> exn option \<times> 'w"
    \<comment> \<open>\<^verbatim>\<open>os.chmod(p, stat.S_IWRITE)\<close>\<close>
  os_call :: "osfunc \<Rightarrow> path \<Rightarrow> 'w \<Rightarrow> exn option \<times> 'w"
    \<comment> \<open>\<^verbatim>\<open>func(p)\<close> for one of the functions above\<close>
  rmtree_plan :: "'w \<Rightarrow> path \<Rightarrow> (osfunc \<times> path) list"
    \<comment> \<open>the calls \<^verbatim>\<open>shutil.rmtree(p)\<close> makes, in order\<close>
  os_rename :: "path \<Rightarrow> path \<Rightarrow> 'w \<Rightarrow> exn option \<times> 'w"
    \<comment> \<open>\<^verbatim>\<open>os.rename(src, dst)\<close>\<close>
  shutil_move :: "path \<Rightarrow> path \<Rightarrow> 'w \<Rightarrow> exn option \<times> 'w"
    \<comment> \<open>\<^verbatim>\<open>shutil.move(src, dst)\<close>\<close>
  subprocess_rm_rf :: "path \<Rightarrow> 'w \<Rightarrow> exn option \<times> 'w"
    \<comment> \<open>\<^verbatim>\<open>subprocess.run(['rm', '-rf', p], check=True)\<close>; a non-zero exit status
        raises \<^verbatim>\<open>CalledProcessError\<close>\<close>
  time_passes :: "rat \<Rightarrow> 'w \<Rightarrow> 'w"
    \<comment> \<open>what the world does while the script sleeps\<close>

section \<open>State: the world and the log of what was done to it\<close>

text \<open>
  Every call that can change the file system, the working directory or the clock is
  appended to a log, so that "no deletion was attempted" and "exactly two sleeps" are
  statements about a value. Queries (\<open>path_exists\<close>, \<open>path_resolve\<close>, ...) are not logged.
\<close>

datatype event =
    E_chdir path
  | E_chmod path
  | E_call osfunc path
  | E_rmtree path
  | E_rename path path
  | E_move path path
  | E_rm_rf path
  | E_sleep rat

record 'w state =
  world :: 'w
  trace :: "event list"

datatype 'a res = Return 'a | Raise exn

definition syscall :: "event \<Rightarrow> ('w \<Rightarrow> exn option \<times> 'w) \<Rightarrow> 'w state \<Rightarrow> exn option \<times> 'w state" where
  "syscall ev f s =
     (case f (world s) of (r, w') \<Rightarrow> (r, \<lparr>world = w', trace = trace s @ [ev]\<rparr>))"

text \<open>
  \<^verbatim>\<open>time.sleep(d)\<close> raises \<^verbatim>\<open>ValueError\<close> on a negative length and blocks otherwise.
\<close>

definition time_sleep :: "'w env \<Rightarrow> rat \<Rightarrow> 'w state \<Rightarrow> exn option \<times> 'w state" where
  "time_sleep os d s =
     (if d < 0 then (Some ValueError, s)
      else syscall (E_sleep d) (\<lambda>w. (None, time_passes os d w)) s)"

section \<open>The error handler \<^verbatim>\<open>_on_rm_error\<close>\<close>

text \<open>
  \<^verbatim>\<open>
  def _on_rm_error(func, path, exc_info):
      try:
          os.chmod(path, stat.S_IWRITE)
      except Exception:
          pass
      try:
          func(path)
      except Exception:
          raise
  \<close>
  The result is the exception of the second \<^verbatim>\<open>func(path)\<close>, if any.
\<close>

definition on_rm_error :: "'w env \<Rightarrow> osfunc \<Rightarrow> path \<Rightarrow> 'w state \<Rightarrow> exn option \<times> 'w state" where
  "on_rm_error os func p s =
     (case syscall (E_chmod p) (os_chmod_write os p) s of
        (_, s1) \<Rightarrow> syscall (E_call func p) (os_call os func p) s1)"

section \<open>\<^verbatim>\<open>shutil.rmtree\<close> with an \<^verbatim>\<open>onerror\<close> callback\<close>

text \<open>
  The library's contract: \<^verbatim>\<open>rmtree\<close> walks the tree and calls one removal function per
  entry; when a call fails it calls \<^verbatim>\<open>onerror(func, path, exc_info)\<close> and goes on if
  the callback returns; an exception raised by the callback is not caught. Which calls are
  made is the parameter \<open>rmtree_plan\<close>, read when the walk starts.
\<close>

fun rmtree_ops ::
  "'w env \<Rightarrow> (osfunc \<Rightarrow> path \<Rightarrow> 'w state \<Rightarrow> exn option \<times> 'w state) \<Rightarrow>
   (osfunc \<times> path) list \<Rightarrow> 'w state \<Rightarrow> exn option \<times> 'w state" where
  "rmtree_ops os onerror [] s = (None, s)"
| "rmtree_ops os onerror ((f, q) # ops) s =
     (case syscall (E_call f q) (os_call os f q) s of
        (None, s1) \<Rightarrow> rmtree_ops os onerror ops s1
      | (Some e, s1) \<Rightarrow>
          (case onerror f q s1 of
             (None, s2) \<Rightarrow> rmtree_ops os onerror ops s2
           | (Some e', s2) \<Rightarrow> (Some e', s2)))"

definition shutil_rmtree ::
  "'w env \<Rightarrow> (osfunc \<Rightarrow> path \<Rightarrow> 'w state \<Rightarrow> exn option \<times> 'w state) \<Rightarrow>
   path \<Rightarrow> 'w state \<Rightarrow> exn option \<times> 'w state" where
  "shutil_rmtree os onerror p s =
     rmtree_ops os onerror (rmtree_plan os (world s) p)
       \<lparr>world = world s, trace = trace s @ [E_rmtree p]\<rparr>"

section \<open>The working-directory guard \<^verbatim>\<open>_ensure_not_cwd\<close>\<close>

fun startswith :: "string \<Rightarrow> string \<Rightarrow> bool" where
  "startswith s [] = True"
| "startswith [] (c # p) = False"
| "startswith (a # s) (c # p) = (a = c \<and> startswith s p)"

text \<open>
  \<^verbatim>\<open>
  def _ensure_not_cwd(path: Path):
      cwd = Path.cwd().resolve()
      try:
          if cwd == path.resolve() or str(cwd).startswith(str(path.resolve()) + os.sep):
              os.chdir(tempfile.gettempdir())
      except Exception:
          pass
  \<close>
  The first line is outside the \<^verbatim>\<open>try\<close>: its exception leaves the function.
\<close>

definition chdir_to_temp :: "'w env \<Rightarrow> 'w state \<Rightarrow> unit res \<times> 'w state" where
  "chdir_to_temp os s =
     (let tmp = tempfile_gettempdir os (world s)
      in case syscall (E_chdir tmp) (os_chdir os tmp) s of (_, s1) \<Rightarrow> (Return (), s1))"

definition ensure_not_cwd :: "'w env \<Rightarrow> path \<Rightarrow> 'w state \<Rightarrow> unit res \<times> 'w state" where
  "ensure_not_cwd os p s =
     (case path_cwd_resolve os (world s) of
        Inl e \<Rightarrow> (Raise e, s)
      | Inr cwd \<Rightarrow>
          (case path_resolve os (world s) p of
             Inl _ \<Rightarrow> (Return (), s)
           | Inr rp \<Rightarrow>
               if cwd = rp then chdir_to_temp os s
               else
                 (case path_resolve os (world s) p of
                    Inl _ \<Rightarrow> (Return (), s)
                  | Inr rp' \<Rightarrow>
                      if startswith cwd (rp' @ os_sep os) then chdir_to_temp os s
                      else (Return (), s))))"

section \<open>\<^verbatim>\<open>safe_remove_tree\<close>\<close>

text \<open>Lines 56 to 63: remove \<^verbatim>\<open>p / '.git'\<close> first; an exception is ignored.\<close>

definition preclean_git :: "'w env \<Rightarrow> path \<Rightarrow> 'w state \<Rightarrow> 'w state" where
  "preclean_git os p s =
     (let git_dir = path_join os p ''.git''
      in if path_exists os (world s) git_dir
         then snd (shutil_rmtree os (on_rm_error os) git_dir s)
         else s)"

text \<open>
  Lines 65 to 82: the trash path, then \<^verbatim>\<open>os.rename\<close>, then \<^verbatim>\<open>shutil.move\<close> if the
  rename raised. The result is the deletion target.
\<close>

definition trash_path_of :: "'w env \<Rightarrow> 'w \<Rightarrow> path" where
  "trash_path_of os w =
     path_join os (tempfile_gettempdir os w) (''build-trash-'' @ fst (uuid4_hex os w))"

definition relocate :: "'w env \<Rightarrow> path \<Rightarrow> 'w state \<Rightarrow> path \<times> 'w state" where
  "relocate os p s =
     (let trash_path = trash_path_of os (world s);
          s0 = \<lparr>world = snd (uuid4_hex os (world s)), trace = trace s\<rparr>
      in case syscall (E_rename p trash_path) (os_rename os p trash_path) s0 of
           (None, s1) \<Rightarrow> (trash_path, s1)
         | (Some _, s1) \<Rightarrow>
             (case syscall (E_move p trash_path) (shutil_move os p trash_path) s1 of
                (None, s2) \<Rightarrow> (trash_path, s2)
              | (Some _, s2) \<Rightarrow> (p, s2)))"

text \<open>
  Lines 86 to 91, the body of the \<^verbatim>\<open>try\<close> in the loop:
  \<^verbatim>\<open>
  if target.exists():
      shutil.rmtree(str(target), onerror=_on_rm_error)
  if not target.exists():
      return True
  \<close>
\<close>

datatype attempt_result = Gone | Still | Failed exn

definition attempt_once :: "'w env \<Rightarrow> path \<Rightarrow> 'w state \<Rightarrow> attempt_result \<times> 'w state" where
  "attempt_once os target s =
     (case (if path_exists os (world s) target
            then shutil_rmtree os (on_rm_error os) target s
            else (None, s)) of
        (Some e, s1) \<Rightarrow> (Failed e, s1)
      | (None, s1) \<Rightarrow> if \<not> path_exists os (world s1) target then (Gone, s1) else (Still, s1))"

text \<open>
  Lines 85 to 94: \<^verbatim>\<open>for attempt in range(1, retries + 1)\<close>. The result is
  \<open>Some r\<close> when the loop leaves the function (\<^verbatim>\<open>return True\<close>, or the exception of
  \<^verbatim>\<open>time.sleep\<close> in the handler) and \<open>None\<close> when the range is exhausted.
\<close>

function retry_loop ::
  "'w env \<Rightarrow> path \<Rightarrow> rat \<Rightarrow> int \<Rightarrow> int \<Rightarrow> 'w state \<Rightarrow> bool res option \<times> 'w state" where
  "retry_loop os target delay attempt retries s =
     (if retries < attempt then (None, s)
      else
        (case attempt_once os target s of
           (Gone, s1) \<Rightarrow> (Some (Return True), s1)
         | (Still, s1) \<Rightarrow> retry_loop os target delay (attempt + 1) retries s1
         | (Failed _, s1) \<Rightarrow>
             (case time_sleep os (delay * of_int attempt) s1 of
                (Some e, s2) \<Rightarrow> (Some (Raise e), s2)
              | (None, s2) \<Rightarrow> retry_loop os target delay (attempt + 1) retries s2)))"
  by pat_completeness auto
termination
  by (relation "measure (\<lambda>(os, target, delay, attempt, retries, s). nat (retries + 1 - attempt))") auto

text \<open>
  Lines 96 to 102: the POSIX fallback. \<open>Some b\<close> is \<^verbatim>\<open>return not target.exists()\<close>;
  \<open>None\<close> falls through to the end of the function.
\<close>

definition shell_fallback :: "'w env \<Rightarrow> path \<Rightarrow> 'w state \<Rightarrow> bool option \<times> 'w state" where
  "shell_fallback os target s =
     (if os_name_posix os \<and> path_exists os (world s) target then
        (case syscall (E_rm_rf target) (subprocess_rm_rf os target) s of
           (None, s1) \<Rightarrow> (Some (\<not> path_exists os (world s1) target), s1)
         | (Some _, s1) \<Rightarrow> (None, s1))
      else (None, s))"

text \<open>Lines 104 to 108.\<close>

definition give_up :: "path \<Rightarrow> bool \<Rightarrow> bool res" where
  "give_up p ignore_errors =
     (if ignore_errors then Return False
      else Raise (RuntimeError (''Could not delete build path: '' @ p)))"

text \<open>Lines 84 to 108, on the target chosen by the relocation.\<close>

definition delete_phase ::
  "'w env \<Rightarrow> path \<Rightarrow> path \<Rightarrow> int \<Rightarrow> rat \<Rightarrow> bool \<Rightarrow> 'w state \<Rightarrow> bool res \<times> 'w state" where
  "delete_phase os p target retries delay ignore_errors s =
     (case retry_loop os target delay 1 retries s of
        (Some r, s1) \<Rightarrow> (r, s1)
      | (None, s1) \<Rightarrow>
          (case shell_fallback os target s1 of
             (Some b, s2) \<Rightarrow> (Return b, s2)
           | (None, s2) \<Rightarrow> (give_up p ignore_errors, s2)))"

definition safe_remove_tree ::
  "'w env \<Rightarrow> path \<Rightarrow> int \<Rightarrow> rat \<Rightarrow> bool \<Rightarrow> 'w state \<Rightarrow> bool res \<times> 'w state" where
  "safe_remove_tree os p retries delay ignore_errors s =
     (if \<not> path_exists os (world s) p then (Return True, s)
      else
        (case ensure_not_cwd os p s of
           (Raise e, s1) \<Rightarrow> (Raise e, s1)
         | (Return _, s1) \<Rightarrow>
             (case relocate os p (preclean_git os p s1) of
                (target, s2) \<Rightarrow> delete_phase os p target retries delay ignore_errors s2)))"

declare retry_loop.simps [simp del]

section \<open>\<^verbatim>\<open>cleanup_build_files\<close>\<close>

text \<open>
  The build result is a Python dictionary read with \<^verbatim>\<open>.get\<close>: a key may be absent
  (\<open>None\<close> below), hold \<^verbatim>\<open>None\<close> or hold a value. \<^verbatim>\<open>subLibs\<close> maps names to
  build results, in insertion order, and a child may itself be \<^verbatim>\<open>None\<close>.
\<close>

datatype pyval = PyNone | PyStr string

datatype build_result =
  BuildResult (buildDir: "pyval option") (subLibs: "sublibs option")
and sublibs =
  SubNone | SubDict "(string \<times> build_result option) list"

text \<open>\<^verbatim>\<open>d.get(key)\<close>: \<^verbatim>\<open>None\<close> for an absent key.\<close>

definition get_buildDir :: "build_result \<Rightarrow> pyval" where
  "get_buildDir r = (case buildDir r of None \<Rightarrow> PyNone | Some v \<Rightarrow> v)"

definition get_subLibs :: "build_result \<Rightarrow> sublibs" where
  "get_subLibs r = (case subLibs r of None \<Rightarrow> SubNone | Some v \<Rightarrow> v)"

text \<open>
  \<^verbatim>\<open>
  def cleanup_build_files(resultData):
      if resultData is not None:
          buildDir = resultData.get("buildDir")
          if buildDir:
              safe_remove_tree(buildDir)
          subLibs = resultData.get("subLibs")
          if subLibs:
              for name, info in subLibs.items():
                  cleanup_build_files(info)
  \<close>
  \<^verbatim>\<open>safe_remove_tree(buildDir)\<close> runs with the defaults \<^verbatim>\<open>retries=5\<close>,
  \<^verbatim>\<open>delay=0.5\<close>, \<^verbatim>\<open>ignore_errors=True\<close>; its result is dropped, its exception is not.
\<close>

definition remove_build_dir :: "'w env \<Rightarrow> pyval \<Rightarrow> 'w state \<Rightarrow> unit res \<times> 'w state" where
  "remove_build_dir os v s =
     (case v of
        PyNone \<Rightarrow> (Return (), s)
      | PyStr d \<Rightarrow>
          if d = [] then (Return (), s)
          else (case safe_remove_tree os d 5 (1 / 2) True s of
                  (Raise e, s1) \<Rightarrow> (Raise e, s1)
                | (Return _, s1) \<Rightarrow> (Return (), s1)))"

function cleanup_build_files :: "'w env \<Rightarrow> build_result option \<Rightarrow> 'w state \<Rightarrow> unit res \<times> 'w state"
and cleanup_subLibs :: "'w env \<Rightarrow> sublibs \<Rightarrow> 'w state \<Rightarrow> unit res \<times> 'w state"
and cleanup_items ::
  "'w env \<Rightarrow> (string \<times> build_result option) list \<Rightarrow> 'w state \<Rightarrow> unit res \<times> 'w state" where
  "cleanup_build_files os None s = (Return (), s)"
| "cleanup_build_files os (Some (BuildResult bd sl)) s =
     (case remove_build_dir os (get_buildDir (BuildResult bd sl)) s of
        (Raise e, s1) \<Rightarrow> (Raise e, s1)
      | (Return _, s1) \<Rightarrow> cleanup_subLibs os (get_subLibs (BuildResult bd sl)) s1)"
| "cleanup_subLibs os SubNone s = (Return (), s)"
| "cleanup_subLibs os (SubDict items) s =
     (if items = [] then (Return (), s) else cleanup_items os items s)"
| "cleanup_items os [] s = (Return (), s)"
| "cleanup_items os ((name, info) # rest) s =
     (case cleanup_build_files os info s of
        (Raise e, s1) \<Rightarrow> (Raise e, s1)
      | (Return _, s1) \<Rightarrow> cleanup_items os rest s1)"
  by pat_completeness auto
termination
  by (relation "measure (\<lambda>x. case x of
      Inl (os, r, s) \<Rightarrow> 3 * size_option size r + 2
    | Inr (Inl (os, sl, s)) \<Rightarrow> 3 * size sl + 1
    | Inr (Inr (os, items, s)) \<Rightarrow>
        3 * size_list (size_prod (\<lambda>_. 0) (size_option size)) items)")
    (auto simp: get_subLibs_def split: option.splits)

section \<open>A small file system to run the model on\<close>

text \<open>
  An instance of the parameters, used to evaluate the definitions on concrete inputs. The
  world lists the paths that exist; an entry lies inside a directory when its path extends
  the directory's by \<open>/\<close>. Removing an entry fails when it does not exist, when it is held
  open by another process, when it is read-only (until \<open>os_chmod_write\<close> clears that), while
  a transient lock lasts (it is released as time passes), or when it still has children.
\<close>

record fs =
  entries :: "path list"
  readonly :: "path list"
  held :: "path list"
  busy :: nat
  cwd :: "path option"
  rename_ok :: bool
  move_ok :: bool
  uuids :: nat

definition inside :: "path \<Rightarrow> path \<Rightarrow> bool" where
  "inside p q = startswith q (p @ ''/'')"

definition fs_call :: "osfunc \<Rightarrow> path \<Rightarrow> fs \<Rightarrow> exn option \<times> fs" where
  "fs_call f q w =
     (if q \<notin> set (entries w) \<or> q \<in> set (held w) \<or> q \<in> set (readonly w) \<or> 0 < busy w
         \<or> list_ex (inside q) (entries w)
      then (Some OSError, w)
      else (None, w\<lparr>entries := removeAll q (entries w)\<rparr>))"

definition fs_plan :: "fs \<Rightarrow> path \<Rightarrow> (osfunc \<times> path) list" where
  "fs_plan w p = map (\<lambda>q. (os_unlink, q)) (rev (filter (inside p) (entries w))) @ [(os_rmdir, p)]"

definition fs_retarget :: "path \<Rightarrow> path \<Rightarrow> path \<Rightarrow> path" where
  "fs_retarget src dst q =
     (if q = src then dst else if inside src q then dst @ drop (length src) q else q)"

definition fs_relocate :: "path \<Rightarrow> path \<Rightarrow> fs \<Rightarrow> fs" where
  "fs_relocate src dst w =
     w\<lparr>entries := map (fs_retarget src dst) (entries w),
       readonly := map (fs_retarget src dst) (readonly w),
       held := map (fs_retarget src dst) (held w)\<rparr>"

definition fs_rename :: "path \<Rightarrow> path \<Rightarrow> fs \<Rightarrow> exn option \<times> fs" where
  "fs_rename src dst w =
     (if rename_ok w \<and> src \<in> set (entries w) then (None, fs_relocate src dst w)
      else (Some OSError, w))"

definition fs_move :: "path \<Rightarrow> path \<Rightarrow> fs \<Rightarrow> exn option \<times> fs" where
  "fs_move src dst w =
     (if move_ok w \<and> src \<in> set (entries w) then (None, fs_relocate src dst w)
      else (Some OSError, w))"

definition fs_rm_rf :: "path \<Rightarrow> fs \<Rightarrow> exn option \<times> fs" where
  "fs_rm_rf p w =
     (if list_ex (\<lambda>q. q = p \<or> inside p q) (held w) then (Some CalledProcessError, w)
      else (None, w\<lparr>entries := filter (\<lambda>q. \<not> (q = p \<or> inside p q)) (entries w)\<rparr>))"

definition fs_uuid :: "fs \<Rightarrow> string \<times> fs" where
  "fs_uuid w = (replicate (Suc (uuids w)) (CHR ''a''), w\<lparr>uuids := Suc (uuids w)\<rparr>)"

definition fs_env :: "bool \<Rightarrow> fs env" where
  "fs_env px =
     \<lparr>os_name_posix = px,
      os_sep = ''/'',
      path_join = (\<lambda>p n. p @ ''/'' @ n),
      path_exists = (\<lambda>w p. p \<in> set (entries w)),
      path_cwd_resolve = (\<lambda>w. case cwd w of None \<Rightarrow> Inl OSError | Some c \<Rightarrow> Inr c),
      path_resolve = (\<lambda>w p. Inr p),
      tempfile_gettempdir = (\<lambda>w. ''/tmp''),
      uuid4_hex = fs_uuid,
      os_chdir = (\<lambda>p w. (None, w\<lparr>cwd := Some p\<rparr>)),
      os_chmod_write = (\<lambda>p w. (None, w\<lparr>readonly := removeAll p (readonly w)\<rparr>)),
      os_call = fs_call,
      rmtree_plan = fs_plan,
      os_rename = fs_rename,
      shutil_move = fs_move,
      subprocess_rm_rf = fs_rm_rf,
      time_passes = (\<lambda>d w. w\<lparr>busy := busy w - 1\<rparr>)\<rparr>"

text \<open>
  A starting state: the entries, those that are read-only, those that are held open, the
  length of the transient lock, the working directory, and whether \<open>os_rename\<close> and
  \<open>shutil_move\<close> work. The log is empty.
\<close>

definition fs_state ::
  "path list \<Rightarrow> path list \<Rightarrow> path list \<Rightarrow> nat \<Rightarrow> path option \<Rightarrow> bool \<Rightarrow> bool \<Rightarrow> fs state" where
  "fs_state es ro hs b wd rn mv =
     \<lparr>world = \<lparr>entries = es, readonly = ro, held = hs, busy = b, cwd = wd,
                rename_ok = rn, move_ok = mv, uuids = 0\<rparr>,
      trace = []\<rparr>"

text \<open>
  Another process removes the tree while the script is at it: each removal call of the
  script fails, and the entry and everything inside it are gone when the call returns.
\<close>

definition racing_call :: "osfunc \<Rightarrow> path \<Rightarrow> fs \<Rightarrow> exn option \<times> fs" where
  "racing_call f q w =
     (Some OSError, w\<lparr>entries := filter (\<lambda>r. \<not> (r = q \<or> inside q r)) (entries w)\<rparr>)"

definition racing_env :: "bool \<Rightarrow> fs env" where
  "racing_env px = (fs_env px)\<lparr>os_call := racing_call\<rparr>"

text \<open>\<^verbatim>\<open>rm -rf\<close> exits with status zero and the target is still there.\<close>

definition idle_rm_env :: "fs env" where
  "idle_rm_env = (fs_env True)\<lparr>subprocess_rm_rf := (\<lambda>p w. (None, w))\<rparr>"

section \<open>Reading the log\<close>

definition issued :: "'w state \<Rightarrow> 'w state \<Rightarrow> event list" where
  "issued s s' = drop (length (trace s)) (trace s')"

definition extends :: "'w state \<Rightarrow> 'w state \<Rightarrow> bool" where
  "extends s s' = (take (length (trace s)) (trace s') = trace s)"

definition grows :: "(event \<Rightarrow> bool) \<Rightarrow> 'w state \<Rightarrow> 'w state \<Rightarrow> bool" where
  "grows P s s' = (extends s s' \<and> list_all P (issued s s'))"

fun sleeps :: "event list \<Rightarrow> rat list" where
  "sleeps [] = []"
| "sleeps (E_sleep d # es) = d # sleeps es"
| "sleeps (_ # es) = sleeps es"

text \<open>The paths on which \<^verbatim>\<open>shutil.rmtree\<close> was called.\<close>

fun rmtrees :: "event list \<Rightarrow> path list" where
  "rmtrees [] = []"
| "rmtrees (E_rmtree q # es) = q # rmtrees es"
| "rmtrees (_ # es) = rmtrees es"

fun is_sleep :: "event \<Rightarrow> bool" where
  "is_sleep (E_sleep d) = True"
| "is_sleep _ = False"

text \<open>The calls on single entries: what a walk of \<^verbatim>\<open>shutil.rmtree\<close> and its handler issue.\<close>

fun is_entry_call :: "event \<Rightarrow> bool" where
  "is_entry_call (E_chmod q) = True"
| "is_entry_call (E_call f q) = True"
| "is_entry_call _ = False"

fun is_chdir :: "event \<Rightarrow> bool" where
  "is_chdir (E_chdir q) = True"
| "is_chdir _ = False"

text \<open>What the deletion phase may issue on the target \<open>t\<close>.\<close>

fun deletes_only :: "path \<Rightarrow> event \<Rightarrow> bool" where
  "deletes_only t (E_rmtree q) = (q = t)"
| "deletes_only t (E_rm_rf q) = (q = t)"
| "deletes_only t (E_chmod q) = True"
| "deletes_only t (E_call f q) = True"
| "deletes_only t (E_sleep d) = True"
| "deletes_only t _ = False"

text \<open>
  The read-only attribute is the only obstacle on a walk: every call on an entry either
  succeeds, or fails and succeeds once the entry has been made writable.
\<close>

fun only_readonly_obstacles :: "'w env \<Rightarrow> (osfunc \<times> path) list \<Rightarrow> 'w \<Rightarrow> bool" where
  "only_readonly_obstacles os [] w = True"
| "only_readonly_obstacles os ((f, q) # ops) w =
     (case os_call os f q w of
        (None, w1) \<Rightarrow> only_readonly_obstacles os ops w1
      | (Some _, w1) \<Rightarrow>
          (case os_call os f q (snd (os_chmod_write os q w1)) of
             (None, w2) \<Rightarrow> only_readonly_obstacles os ops w2
           | (Some _, w2) \<Rightarrow> False))"

section \<open>The build directories of a result, as the specification lists them\<close>

text \<open>
  The directories that the cleanup is to delete: the \<^verbatim>\<open>buildDir\<close> of every node that has
  one, the node before its \<^verbatim>\<open>subLibs\<close>, these in their order.
\<close>

function build_dirs :: "build_result option \<Rightarrow> path list"
and build_dirs_subLibs :: "sublibs \<Rightarrow> path list"
and build_dirs_items :: "(string \<times> build_result option) list \<Rightarrow> path list" where
  "build_dirs None = []"
| "build_dirs (Some (BuildResult bd sl)) =
     (case bd of Some (PyStr d) \<Rightarrow> (if d = [] then [] else [d]) | _ \<Rightarrow> [])
     @ (case sl of Some v \<Rightarrow> build_dirs_subLibs v | None \<Rightarrow> [])"
| "build_dirs_subLibs SubNone = []"
| "build_dirs_subLibs (SubDict items) = build_dirs_items items"
| "build_dirs_items [] = []"
| "build_dirs_items ((name, info) # rest) = build_dirs info @ build_dirs_items rest"
  by pat_completeness auto
termination
  by (relation "measure (\<lambda>x. case x of
      Inl r \<Rightarrow> 3 * size_option size r + 2
    | Inr (Inl sl) \<Rightarrow> 3 * size sl + 1
    | Inr (Inr items) \<Rightarrow> 3 * size_list (size_prod (\<lambda>_. 0) (size_option size)) items)")
    auto

text \<open>\<^verbatim>\<open>safe_remove_tree(d)\<close> for each directory of a list, up to the first exception.\<close>

fun remove_all :: "'w env \<Rightarrow> path list \<Rightarrow> 'w state \<Rightarrow> unit res \<times> 'w state" where
  "remove_all os [] s = (Return (), s)"
| "remove_all os (d # ds) s =
     (case safe_remove_tree os d 5 (1 / 2) True s of
        (Raise e, s1) \<Rightarrow> (Raise e, s1)
      | (Return _, s1) \<Rightarrow> remove_all os ds s1)"

text \<open>
  \<^verbatim>\<open>{buildDir: "A", subLibs: {"x": {buildDir: "B", subLibs: {}},
                               "y": {buildDir: None, subLibs: {}}}}\<close>
\<close>

definition example_tree :: build_result where
  "example_tree =
     BuildResult (Some (PyStr ''A''))
       (Some (SubDict
          [(''x'', Some (BuildResult (Some (PyStr ''B'')) (Some (SubDict [])))),
           (''y'', Some (BuildResult (Some PyNone) (Some (SubDict []))))]))"

section \<open>The log only grows\<close>

lemma issued_self [simp]: "issued s s = []"
  by (simp add: issued_def)

lemma grows_refl [simp]: "grows P s s"
  by (simp add: grows_def extends_def)

lemma growsI: "trace s' = trace s @ new \<Longrightarrow> list_all P new \<Longrightarrow> grows P s s'"
  by (simp add: grows_def extends_def issued_def)

lemma growsD: "grows P s s' \<Longrightarrow> trace s' = trace s @ issued s s'"
  unfolding grows_def extends_def issued_def
  by (metis append_take_drop_id)

lemma grows_issued: "grows P s s' \<Longrightarrow> list_all P (issued s s')"
  by (simp add: grows_def)

lemma issued_trans:
  assumes "grows P s s1" and "grows Q s1 s2"
  shows "issued s s2 = issued s s1 @ issued s1 s2"
proof -
  have "trace s2 = trace s @ issued s s1 @ issued s1 s2"
    using growsD [OF assms(1)] growsD [OF assms(2)] by simp
  then show ?thesis
    by (simp add: issued_def [of s s2])
qed

lemma grows_trans:
  assumes "grows P s s1" and "grows P s1 s2"
  shows "grows P s s2"
proof (rule growsI)
  show "trace s2 = trace s @ (issued s s1 @ issued s1 s2)"
    using growsD [OF assms(1)] growsD [OF assms(2)] by simp
  show "list_all P (issued s s1 @ issued s1 s2)"
    using grows_issued [OF assms(1)] grows_issued [OF assms(2)] by simp
qed

lemma grows_mono:
  assumes "grows P s s'" and "\<And>e. P e \<Longrightarrow> Q e"
  shows "grows Q s s'"
  using assms unfolding grows_def by (auto simp: list_all_iff)

lemma syscall_trace: "trace (snd (syscall ev f s)) = trace s @ [ev]"
  by (simp add: syscall_def split: prod.splits)

lemma syscall_issued [simp]: "issued s (snd (syscall ev f s)) = [ev]"
  by (simp add: issued_def syscall_trace)

lemma syscall_grows: "P ev \<Longrightarrow> grows P s (snd (syscall ev f s))"
  by (rule growsI [where new = "[ev]"]) (simp_all add: syscall_trace)

lemma time_sleep_grows: "grows is_sleep s (snd (time_sleep os d s))"
  by (simp add: time_sleep_def syscall_grows)

lemma on_rm_error_trace:
  "trace (snd (on_rm_error os f q s)) = trace s @ [E_chmod q, E_call f q]"
  by (simp add: on_rm_error_def syscall_def split: prod.splits)

lemma on_rm_error_grows: "grows is_entry_call s (snd (on_rm_error os f q s))"
  by (rule growsI [where new = "[E_chmod q, E_call f q]"]) (simp_all add: on_rm_error_trace)

lemma rmtree_ops_grows:
  "grows is_entry_call s (snd (rmtree_ops os (on_rm_error os) ops s))"
proof (induction ops arbitrary: s)
  case Nil
  show ?case by simp
next
  case (Cons op ops)
  obtain f q where op: "op = (f, q)" by (cases op)
  obtain r s1 where c: "syscall (E_call f q) (os_call os f q) s = (r, s1)"
    by (cases "syscall (E_call f q) (os_call os f q) s")
  have g1: "grows is_entry_call s s1"
    using syscall_grows [of is_entry_call "E_call f q" s "os_call os f q"] c by simp
  show ?case
  proof (cases r)
    case None
    then show ?thesis
      using op c g1 Cons.IH [of s1] by (simp add: grows_trans)
  next
    case (Some e)
    obtain r' s2 where h: "on_rm_error os f q s1 = (r', s2)"
      by (cases "on_rm_error os f q s1")
    have "grows is_entry_call s1 s2"
      using on_rm_error_grows [of s1 os f q] h by simp
    then have g2: "grows is_entry_call s s2"
      by (rule grows_trans [OF g1])
    show ?thesis
      using op c Some h g2 Cons.IH [of s2]
      by (cases r') (auto intro: grows_trans)
  qed
qed

lemma shutil_rmtree_grows:
  "grows (\<lambda>e. e = E_rmtree q \<or> is_entry_call e) s (snd (shutil_rmtree os (on_rm_error os) q s))"
proof -
  let ?s0 = "\<lparr>world = world s, trace = trace s @ [E_rmtree q]\<rparr>"
  have "grows (\<lambda>e. e = E_rmtree q \<or> is_entry_call e) s ?s0"
    by (rule growsI [where new = "[E_rmtree q]"]) simp_all
  moreover have "grows (\<lambda>e. e = E_rmtree q \<or> is_entry_call e) ?s0
      (snd (rmtree_ops os (on_rm_error os) (rmtree_plan os (world s) q) ?s0))"
    by (rule grows_mono [OF rmtree_ops_grows]) simp
  ultimately show ?thesis
    unfolding shutil_rmtree_def by (rule grows_trans)
qed

lemma rmtree_deletes_only:
  "grows (deletes_only t) s (snd (shutil_rmtree os (on_rm_error os) t s))"
proof (rule grows_mono [OF shutil_rmtree_grows])
  fix e assume "e = E_rmtree t \<or> is_entry_call e"
  then show "deletes_only t e" by (cases e) auto
qed

lemma attempt_once_grows: "grows (deletes_only t) s (snd (attempt_once os t s))"
  using rmtree_deletes_only [of t s os]
  by (auto simp: attempt_once_def split: prod.splits option.splits)

lemma time_sleep_deletes_only: "grows (deletes_only t) s (snd (time_sleep os d s))"
  by (rule grows_mono [OF time_sleep_grows]) (case_tac e, auto)

lemma retry_loop_grows:
  "grows (deletes_only t) s (snd (retry_loop os t delay attempt retries s))"
proof (induction os t delay attempt retries s rule: retry_loop.induct)
  case (1 os t delay attempt retries s)
  show ?case
  proof (cases "retries < attempt")
    case True
    then show ?thesis by (simp add: retry_loop.simps)
  next
    case False
    obtain a s1 where a: "attempt_once os t s = (a, s1)"
      by (cases "attempt_once os t s")
    have g1: "grows (deletes_only t) s s1"
      using attempt_once_grows [of t s os] a by simp
    show ?thesis
    proof (cases a)
      case Gone
      then show ?thesis using False a g1 by (simp add: retry_loop.simps)
    next
      case Still
      then show ?thesis
        using False a g1 "1.IH"(1) [OF False a [symmetric, unfolded Still] refl]
        by (simp add: retry_loop.simps [of os t delay attempt] grows_trans)
    next
      case (Failed e)
      obtain r s2 where sl: "time_sleep os (delay * of_int attempt) s1 = (r, s2)"
        by (cases "time_sleep os (delay * of_int attempt) s1")
      have "grows (deletes_only t) s1 s2"
        using time_sleep_deletes_only [of t s1 os "delay * of_int attempt"] sl by simp
      then have g2: "grows (deletes_only t) s s2"
        by (rule grows_trans [OF g1])
      show ?thesis
      proof (cases r)
        case None
        then show ?thesis
          using False a Failed sl g2
            "1.IH"(2) [OF False a [symmetric, unfolded Failed] refl sl [symmetric, unfolded None] refl]
          by (simp add: retry_loop.simps [of os t delay attempt] grows_trans)
      next
        case (Some e')
        then show ?thesis
          using False a Failed sl g2 by (simp add: retry_loop.simps [of os t delay attempt])
      qed
    qed
  qed
qed

lemma shell_fallback_grows: "grows (deletes_only t) s (snd (shell_fallback os t s))"
proof (cases "os_name_posix os \<and> path_exists os (world s) t")
  case True
  have "grows (deletes_only t) s (snd (syscall (E_rm_rf t) (subprocess_rm_rf os t) s))"
    by (rule syscall_grows) simp
  then show ?thesis
    using True by (auto simp: shell_fallback_def split: prod.splits option.splits)
next
  case False
  then show ?thesis by (auto simp: shell_fallback_def)
qed

lemma delete_phase_grows:
  "grows (deletes_only t) s (snd (delete_phase os p t retries delay ie s))"
proof -
  obtain r s1 where l: "retry_loop os t delay 1 retries s = (r, s1)"
    by (cases "retry_loop os t delay 1 retries s")
  have g1: "grows (deletes_only t) s s1"
    using retry_loop_grows [of t s os delay 1 retries] l by simp
  show ?thesis
  proof (cases r)
    case (Some out)
    then show ?thesis using l g1 by (simp add: delete_phase_def)
  next
    case None
    obtain b s2 where f: "shell_fallback os t s1 = (b, s2)"
      by (cases "shell_fallback os t s1")
    have "grows (deletes_only t) s1 s2"
      using shell_fallback_grows [of t s1 os] f by simp
    then have "grows (deletes_only t) s s2"
      by (rule grows_trans [OF g1])
    then show ?thesis
      using l None f by (simp add: delete_phase_def split: option.splits)
  qed
qed

lemma chdir_to_temp_grows: "grows is_chdir s (snd (chdir_to_temp os s))"
proof -
  have "grows is_chdir s (snd (syscall (E_chdir (tempfile_gettempdir os (world s)))
      (os_chdir os (tempfile_gettempdir os (world s))) s))"
    by (rule syscall_grows) simp
  then show ?thesis
    by (auto simp: chdir_to_temp_def Let_def split: prod.splits)
qed

lemma ensure_not_cwd_grows: "grows is_chdir s (snd (ensure_not_cwd os p s))"
  using chdir_to_temp_grows [of s os]
  by (auto simp: ensure_not_cwd_def split: sum.splits)

lemma preclean_git_grows:
  "grows (\<lambda>e. e = E_rmtree (path_join os p ''.git'') \<or> is_entry_call e) s (preclean_git os p s)"
  using shutil_rmtree_grows [of "path_join os p ''.git''" s os]
  by (simp add: preclean_git_def Let_def)

section \<open>The working-directory guard\<close>

lemma ensure_not_cwd_propagates:
  "path_cwd_resolve os (world s) = Inl e \<Longrightarrow> ensure_not_cwd os p s = (Raise e, s)"
  by (simp add: ensure_not_cwd_def)

lemma ensure_not_cwd_swallows:
  "path_cwd_resolve os (world s) = Inr c \<Longrightarrow> fst (ensure_not_cwd os p s) = Return ()"
  by (auto simp: ensure_not_cwd_def chdir_to_temp_def Let_def split: sum.splits prod.splits)

lemma safe_remove_tree_guard_raises:
  assumes "path_exists os (world s) p" and "path_cwd_resolve os (world s) = Inl e"
  shows "safe_remove_tree os p retries delay ignore_errors s = (Raise e, s)"
  using assms by (simp add: safe_remove_tree_def ensure_not_cwd_propagates)

text \<open>
  C3. The claim: the guard swallows every exception raised while resolving or comparing
  paths, also a failure to determine the current working directory, and never makes
  \<^verbatim>\<open>safe_remove_tree\<close> raise. The code resolves the working directory before its
  \<^verbatim>\<open>try\<close>. Here the directory \<open>D\<close> exists and the working directory cannot be
  determined (it has been deleted): \<^verbatim>\<open>safe_remove_tree('D')\<close> raises that error with
  every default, has attempted nothing, and \<open>D\<close> is still there.
\<close>

theorem guard_failure_aborts_deletion:
  "safe_remove_tree (fs_env True) ''D'' 5 (1 / 2) True
     (fs_state [''D'', ''D/a''] [] [] 0 None True True)
   = (Raise OSError, fs_state [''D'', ''D/a''] [] [] 0 None True True)"
  by (simp add: safe_remove_tree_guard_raises fs_env_def fs_state_def)

section \<open>The end of the deletion phase\<close>

lemma retry_loop_exhausted: "retries < attempt \<Longrightarrow> retry_loop os t delay attempt retries s = (None, s)"
  by (simp add: retry_loop.simps)

lemma retry_loop_last_attempt_failed:
  assumes "attempt_once os t s = (Failed e, s1)"
    and "time_sleep os (delay * of_int retries) s1 = (None, s2)"
  shows "retry_loop os t delay retries retries s = (None, s2)"
  using assms by (simp add: retry_loop.simps [of os t delay retries retries s] retry_loop_exhausted)

lemma delete_phase_absent_target_gives_up:
  assumes "retry_loop os t delay 1 retries s = (None, s1)"
    and "\<not> path_exists os (world s1) t"
  shows "delete_phase os p t retries delay ignore_errors s = (give_up p ignore_errors, s1)"
  using assms by (simp add: delete_phase_def shell_fallback_def)

lemma delete_phase_zero_exit_returns:
  assumes "retry_loop os t delay 1 retries s = (None, s1)"
    and "os_name_posix os" and "path_exists os (world s1) t"
    and "syscall (E_rm_rf t) (subprocess_rm_rf os t) s1 = (None, s2)"
  shows "delete_phase os p t retries delay ignore_errors s
         = (Return (\<not> path_exists os (world s2) t), s2)"
  using assms by (simp add: delete_phase_def shell_fallback_def)

lemma delete_phase_exhausted_gives_up:
  assumes "retry_loop os t delay 1 retries s = (None, s1)"
    and "shell_fallback os t s1 = (None, s2)"
  shows "delete_phase os p t retries delay True s = (Return False, s2)"
    and "delete_phase os p t retries delay False s
         = (Raise (RuntimeError (''Could not delete build path: '' @ p)), s2)"
  using assms by (simp_all add: delete_phase_def give_up_def)

text \<open>
  C1. The claim: whenever the deletion target no longer exists at the end of the deletion
  phase the call returns true, also when the last removal attempt raised and left the target
  gone. The code tests \<^verbatim>\<open>not target.exists()\<close> only after an attempt that did not
  raise, and after the loop only runs the fallback when the target exists. Here \<open>D\<close> is an
  existing empty directory, \<^verbatim>\<open>retries=1\<close>, and another process removes the relocated
  directory while the only attempt fails: nothing is left, and the call returns false
  (with \<^verbatim>\<open>ignore_errors=False\<close> it raises), on POSIX and elsewhere.
\<close>

theorem absent_target_reported_as_failure:
  "fst (safe_remove_tree (racing_env False) ''D'' 1 (1 / 2) True
          (fs_state [''D''] [] [] 0 (Some ''/home'') True True)) = Return False
   \<and> entries (world (snd (safe_remove_tree (racing_env False) ''D'' 1 (1 / 2) True
          (fs_state [''D''] [] [] 0 (Some ''/home'') True True)))) = []
   \<and> fst (safe_remove_tree (racing_env True) ''D'' 1 (1 / 2) True
          (fs_state [''D''] [] [] 0 (Some ''/home'') True True)) = Return False
   \<and> fst (safe_remove_tree (racing_env True) ''D'' 1 (1 / 2) False
          (fs_state [''D''] [] [] 0 (Some ''/home'') True True))
       = Raise (RuntimeError ''Could not delete build path: D'')
   \<and> entries (world (snd (safe_remove_tree (racing_env True) ''D'' 1 (1 / 2) False
          (fs_state [''D''] [] [] 0 (Some ''/home'') True True)))) = []"
  by code_simp

text \<open>
  C2. The claim: whenever every attempt and the fallback have failed and the target still
  exists, \<^verbatim>\<open>ignore_errors=False\<close> raises an error naming the path, also when
  \<^verbatim>\<open>rm -rf\<close> exits with status zero and the target is still there. In that case the
  code leaves through \<^verbatim>\<open>return not target.exists()\<close> on line 100, before
  \<^verbatim>\<open>ignore_errors\<close> is read. Here \<open>D/a\<close> is held open, the only attempt fails,
  \<^verbatim>\<open>rm -rf\<close> exits with status zero without removing anything: the call with
  \<^verbatim>\<open>ignore_errors=False\<close> returns false and the relocated directory still exists.
\<close>

theorem zero_exit_fallback_returns_false:
  "fst (safe_remove_tree idle_rm_env ''D'' 1 (1 / 2) False
          (fs_state [''D'', ''D/a''] [] [''D/a''] 0 (Some ''/home'') True True)) = Return False
   \<and> path_exists idle_rm_env
        (world (snd (safe_remove_tree idle_rm_env ''D'' 1 (1 / 2) False
          (fs_state [''D'', ''D/a''] [] [''D/a''] 0 (Some ''/home'') True True))))
        ''/tmp/build-trash-a''"
  by code_simp

section \<open>The walk over a build result\<close>

lemma remove_all_append:
  "remove_all os (xs @ ys) s =
     (case remove_all os xs s of
        (Raise e, s1) \<Rightarrow> (Raise e, s1)
      | (Return _, s1) \<Rightarrow> remove_all os ys s1)"
  by (induction xs arbitrary: s) (auto split: prod.splits res.splits)

lemma remove_build_dir_flat:
  "remove_build_dir os (get_buildDir (BuildResult bd sl)) s =
   remove_all os (case bd of Some (PyStr d) \<Rightarrow> (if d = [] then [] else [d]) | _ \<Rightarrow> []) s"
  by (auto simp: remove_build_dir_def get_buildDir_def
           split: option.splits pyval.splits prod.splits res.splits)

lemma cleanup_flat:
  "cleanup_build_files os r s = remove_all os (build_dirs r) s"
  "cleanup_subLibs os sl s = remove_all os (build_dirs_subLibs sl) s"
  "cleanup_items os items s = remove_all os (build_dirs_items items) s"
proof (induction os r s and os sl s and os items s
       rule: cleanup_build_files_cleanup_subLibs_cleanup_items.induct)
  case (1 os s)
  show ?case by simp
next
  case (2 os bd sl s)
  show ?case
  proof (cases "remove_build_dir os (get_buildDir (BuildResult bd sl)) s")
    case (Pair r s1)
    show ?thesis
    proof (cases r)
      case (Return u)
      have "cleanup_subLibs os (get_subLibs (BuildResult bd sl)) s1
            = remove_all os (build_dirs_subLibs (get_subLibs (BuildResult bd sl))) s1"
        using "2.IH" Pair Return by simp
      moreover have "build_dirs_subLibs (get_subLibs (BuildResult bd sl))
            = (case sl of Some v \<Rightarrow> build_dirs_subLibs v | None \<Rightarrow> [])"
        by (simp add: get_subLibs_def split: option.splits)
      ultimately show ?thesis
        using Pair Return remove_build_dir_flat [of os bd sl s]
        by (simp add: remove_all_append)
    next
      case (Raise e)
      then show ?thesis
        using Pair remove_build_dir_flat [of os bd sl s]
        by (simp add: remove_all_append)
    qed
  qed
next
  case (3 os s)
  show ?case by simp
next
  case (4 os items s)
  then show ?case by (cases "items = []") simp_all
next
  case (5 os s)
  show ?case by simp
next
  case (6 os name info rest s)
  show ?case
  proof (cases "cleanup_build_files os info s")
    case (Pair r s1)
    then show ?thesis
      using "6.IH" by (cases r) (simp_all add: remove_all_append)
  qed
qed

text \<open>
  \<^verbatim>\<open>cleanup_build_files(None)\<close> leaves the state as it is: no call is issued. On the
  example tree the walk is \<^verbatim>\<open>safe_remove_tree("A")\<close> followed by
  \<^verbatim>\<open>safe_remove_tree("B")\<close>; on every build result, of any depth, it is
  \<^verbatim>\<open>safe_remove_tree\<close> on the build directories of all nodes, parents first and
  siblings in their order. In each case, as in Python, an exception of one call ends the
  walk: the calls after it are not made.
\<close>

lemma cleanup_build_files_walks_tree:
  "cleanup_build_files os None s = (Return (), s)
   \<and> cleanup_build_files os (Some example_tree) s = remove_all os [''A'', ''B''] s
   \<and> cleanup_build_files os r s = remove_all os (build_dirs r) s"
  by (simp add: cleanup_flat example_tree_def)

text \<open>
  The example tree on the small file system: \<open>A\<close> and \<open>B\<close> are removed, and every call
  issued is on one of them.
\<close>

lemma cleanup_example_run:
  "cleanup_build_files (fs_env False) (Some example_tree)
     (fs_state [''A'', ''B'', ''B/o'', ''C''] [] [] 0 (Some ''/home'') True True)
   = (Return (),
      \<lparr>world = \<lparr>entries = [''C''], readonly = [], held = [], busy = 0, cwd = Some ''/home'',
                 rename_ok = True, move_ok = True, uuids = 2\<rparr>,
        trace = [E_rename ''A'' ''/tmp/build-trash-a'',
                 E_rmtree ''/tmp/build-trash-a'',
                 E_call os_rmdir ''/tmp/build-trash-a'',
                 E_rename ''B'' ''/tmp/build-trash-aa'',
                 E_rmtree ''/tmp/build-trash-aa'',
                 E_call os_unlink ''/tmp/build-trash-aa/o'',
                 E_call os_rmdir ''/tmp/build-trash-aa'']\<rparr>)"
  by code_simp

text \<open>
  C10. A node whose \<^verbatim>\<open>buildDir\<close> is absent, \<^verbatim>\<open>None\<close> or the empty string issues no
  deletion: the cleanup of the node is the cleanup of its \<^verbatim>\<open>subLibs\<close>. A node whose
  \<^verbatim>\<open>subLibs\<close> is absent, \<^verbatim>\<open>None\<close> or an empty mapping has no recursion: its cleanup
  is the removal of its \<^verbatim>\<open>buildDir\<close>. A node where both are falsy returns normally and
  leaves the state as it is.
\<close>

theorem cleanup_build_files_falsy_fields:
  assumes "bd \<in> {None, Some PyNone, Some (PyStr [])}"
    and "sl \<in> {None, Some SubNone, Some (SubDict [])}"
  shows "cleanup_build_files os (Some (BuildResult bd sl')) s
           = cleanup_subLibs os (get_subLibs (BuildResult bd sl')) s
       \<and> cleanup_build_files os (Some (BuildResult bd' sl)) s
           = remove_build_dir os (get_buildDir (BuildResult bd' sl)) s
       \<and> cleanup_build_files os (Some (BuildResult bd sl)) s = (Return (), s)"
proof -
  have b: "remove_build_dir os (get_buildDir (BuildResult bd x)) s = (Return (), s)" for x
    using assms(1) by (auto simp: remove_build_dir_def get_buildDir_def)
  have c: "cleanup_subLibs os (get_subLibs (BuildResult x sl)) s1 = (Return (), s1)" for x s1
    using assms(2) by (auto simp: get_subLibs_def)
  have "remove_build_dir os v s
        = (case remove_build_dir os v s of (Raise e, s1) \<Rightarrow> (Raise e, s1)
           | (Return _, s1) \<Rightarrow> (Return (), s1))" for v
    by (auto split: prod.splits res.splits)
  then show ?thesis
    using b c by (auto split: prod.splits res.splits)
qed

theorem cleanup_build_files_falsy_fields_witness:
  "Some (PyStr []) \<in> {None, Some PyNone, Some (PyStr [])}
   \<and> Some (SubDict []) \<in> {None, Some SubNone, Some (SubDict [])}
   \<and> cleanup_build_files (fs_env True) (Some (BuildResult (Some (PyStr [])) (Some (SubDict []))))
        (fs_state [''A''] [] [] 0 (Some ''/home'') True True)
      = (Return (), fs_state [''A''] [] [] 0 (Some ''/home'') True True)"
  using cleanup_build_files_falsy_fields
    [of "Some (PyStr [])" "Some (SubDict [])" "fs_env True" None
        "fs_state [''A''] [] [] 0 (Some ''/home'') True True" None]
  by simp

section \<open>Calling twice\<close>

text \<open>
  C4, as stated: calling \<^verbatim>\<open>safe_remove_tree\<close> twice in a row is the same as calling it
  once, with the same returned value, also when the first call relocated the directory,
  could not delete it in the trash location and returned false. It is not: \<open>D/a\<close> is held
  open by another process on a platform without the fallback; the first call with the
  defaults moves \<open>D\<close> to the trash location, fails five times and returns false; the second
  call finds no \<open>D\<close> and returns true.
\<close>

theorem second_call_differs_after_relocation:
  "fst (safe_remove_tree (fs_env False) ''D'' 5 (1 / 2) True
          (fs_state [''D'', ''D/a''] [] [''D/a''] 0 (Some ''/home'') True True)) = Return False
   \<and> fst (safe_remove_tree (fs_env False) ''D'' 5 (1 / 2) True
          (snd (safe_remove_tree (fs_env False) ''D'' 5 (1 / 2) True
             (fs_state [''D'', ''D/a''] [] [''D/a''] 0 (Some ''/home'') True True))))
       = Return True"
  by code_simp

text \<open>
  C4, amended: on a path that does not exist \<^verbatim>\<open>safe_remove_tree\<close> returns true and
  leaves the state as it is, with no call issued. Hence, whenever a first call has left the
  original path nonexistent (deleted, or relocated to the trash location), whatever it
  returned, a second call returns true and changes nothing; its value is that of the first
  call only if the first call returned true.
\<close>

theorem second_call_on_absent_path:
  "(\<not> path_exists os (world s) p \<longrightarrow>
      safe_remove_tree os p retries delay ignore_errors s = (Return True, s))
   \<and> (safe_remove_tree os p retries delay ignore_errors s = (out, s1)
        \<and> \<not> path_exists os (world s1) p \<longrightarrow>
      safe_remove_tree os p retries delay ignore_errors s1 = (Return True, s1))"
  by (simp add: safe_remove_tree_def)

theorem second_call_on_absent_path_witness:
  "safe_remove_tree (fs_env False) ''D'' 5 (1 / 2) True
     (fs_state [''D'', ''D/a''] [] [''D/a''] 0 (Some ''/home'') True True)
   = (Return False,
      snd (safe_remove_tree (fs_env False) ''D'' 5 (1 / 2) True
             (fs_state [''D'', ''D/a''] [] [''D/a''] 0 (Some ''/home'') True True)))
   \<and> \<not> path_exists (fs_env False)
        (world (snd (safe_remove_tree (fs_env False) ''D'' 5 (1 / 2) True
             (fs_state [''D'', ''D/a''] [] [''D/a''] 0 (Some ''/home'') True True)))) ''D''
   \<and> safe_remove_tree (fs_env False) ''D'' 5 (1 / 2) True
        (snd (safe_remove_tree (fs_env False) ''D'' 5 (1 / 2) True
             (fs_state [''D'', ''D/a''] [] [''D/a''] 0 (Some ''/home'') True True)))
      = (Return True,
         snd (safe_remove_tree (fs_env False) ''D'' 5 (1 / 2) True
             (fs_state [''D'', ''D/a''] [] [''D/a''] 0 (Some ''/home'') True True)))"
proof -
  let ?s = "fs_state [''D'', ''D/a''] [] [''D/a''] 0 (Some ''/home'') True True"
  let ?s1 = "snd (safe_remove_tree (fs_env False) ''D'' 5 (1 / 2) True ?s)"
  have first: "safe_remove_tree (fs_env False) ''D'' 5 (1 / 2) True ?s = (Return False, ?s1)"
    by code_simp
  have gone: "\<not> path_exists (fs_env False) (world ?s1) ''D''"
    by code_simp
  show ?thesis
    using first gone
      second_call_on_absent_path
        [of "fs_env False" ?s "''D''" 5 "1 / 2" True "Return False" ?s1]
    by blast
qed

section \<open>Backoff\<close>

lemma sleeps_append: "sleeps (xs @ ys) = sleeps xs @ sleeps ys"
  by (induction xs rule: sleeps.induct) simp_all

lemma sleeps_none: "list_all (\<lambda>e. \<not> is_sleep e) es \<Longrightarrow> sleeps es = []"
  by (induction es rule: sleeps.induct) simp_all

lemma grows_no_sleep:
  assumes "grows P s s'" and "\<And>e. P e \<Longrightarrow> \<not> is_sleep e"
  shows "sleeps (issued s s') = []"
proof -
  have "grows (\<lambda>e. \<not> is_sleep e) s s'"
    using assms by (rule grows_mono)
  then show ?thesis
    by (simp add: grows_issued sleeps_none)
qed

lemma relocate_grows:
  "grows (\<lambda>e. e = E_rename p (trash_path_of os (world s)) \<or> e = E_move p (trash_path_of os (world s)))
     s (snd (relocate os p s))"
proof -
  let ?t = "trash_path_of os (world s)"
  let ?P = "\<lambda>e. e = E_rename p ?t \<or> e = E_move p ?t"
  let ?s0 = "\<lparr>world = snd (uuid4_hex os (world s)), trace = trace s\<rparr>"
  obtain r s1 where c1: "syscall (E_rename p ?t) (os_rename os p ?t) ?s0 = (r, s1)"
    by (cases "syscall (E_rename p ?t) (os_rename os p ?t) ?s0")
  obtain r' s2 where c2: "syscall (E_move p ?t) (shutil_move os p ?t) s1 = (r', s2)"
    by (cases "syscall (E_move p ?t) (shutil_move os p ?t) s1")
  have g0: "grows ?P s ?s0"
    by (rule growsI [where new = "[]"]) simp_all
  have "grows ?P ?s0 s1"
    using syscall_grows [of ?P "E_rename p ?t" ?s0 "os_rename os p ?t"] c1 by simp
  then have g1: "grows ?P s s1"
    by (rule grows_trans [OF g0])
  have "grows ?P s1 s2"
    using syscall_grows [of ?P "E_move p ?t" s1 "shutil_move os p ?t"] c2 by simp
  then have g2: "grows ?P s s2"
    by (rule grows_trans [OF g1])
  show ?thesis
    using c1 c2 g1 g2 by (cases r; cases r') (simp_all add: relocate_def Let_def)
qed

lemma attempt_once_walk:
  "grows (\<lambda>e. e = E_rmtree t \<or> is_entry_call e) s (snd (attempt_once os t s))"
  using shutil_rmtree_grows [of t s os]
  by (auto simp: attempt_once_def split: prod.splits option.splits)

lemma prelude_no_sleep:
  assumes "ensure_not_cwd os p s = (r, sg)"
    and "relocate os p (preclean_git os p sg) = (target, s0)"
  shows "grows (\<lambda>e. \<not> is_sleep e) s s0"
proof -
  have "grows is_chdir s sg"
    using ensure_not_cwd_grows [of s os p] assms(1) by simp
  then have a: "grows (\<lambda>e. \<not> is_sleep e) s sg"
    by (rule grows_mono) (case_tac e, auto)
  have b: "grows (\<lambda>e. \<not> is_sleep e) sg (preclean_git os p sg)"
    by (rule grows_mono [OF preclean_git_grows]) (case_tac e, auto)
  have "grows (\<lambda>e. e = E_rename p (trash_path_of os (world (preclean_git os p sg)))
                 \<or> e = E_move p (trash_path_of os (world (preclean_git os p sg))))
          (preclean_git os p sg) s0"
    using relocate_grows [of p os "preclean_git os p sg"] assms(2) by simp
  then have c: "grows (\<lambda>e. \<not> is_sleep e) (preclean_git os p sg) s0"
    by (rule grows_mono) auto
  show ?thesis
    by (rule grows_trans [OF grows_trans [OF a b] c])
qed

lemma time_sleep_nonneg:
  "0 \<le> d \<Longrightarrow>
   time_sleep os d s = (None, \<lparr>world = time_passes os d (world s), trace = trace s @ [E_sleep d]\<rparr>)"
  by (simp add: time_sleep_def syscall_def)

lemma attempt_once_no_sleep:
  assumes "attempt_once os t s = (a, s')"
  shows "grows (\<lambda>e. \<not> is_sleep e) s s'"
proof -
  have "grows (\<lambda>e. e = E_rmtree t \<or> is_entry_call e) s s'"
    using attempt_once_walk [of t s os] assms by simp
  then show ?thesis
    by (rule grows_mono) (case_tac e, auto)
qed

lemma no_sleep_trace:
  assumes "grows (\<lambda>e. \<not> is_sleep e) s s'"
  shows "trace s' = trace s @ issued s s'" and "sleeps (issued s s') = []"
  using assms by (simp_all add: growsD grows_issued sleeps_none)

text \<open>
  C5. The directory exists, the guard returns, and of the removal attempts on the deletion
  target the first two raise and the third leaves the target gone, each in the state that
  the sleep before it has left. Then, for \<^verbatim>\<open>retries\<close> of 3 or more and any delay that
  is not negative (the claim's 3 and 0.1 among them), \<^verbatim>\<open>safe_remove_tree\<close> returns true
  in the state after the third attempt, and the sleeps of the whole call are exactly two:
  \<^verbatim>\<open>delay * 1\<close>, then \<^verbatim>\<open>delay * 2\<close>. Nothing is slept after the attempt that
  succeeds.
\<close>

theorem backoff_after_two_failures:
  assumes ex: "path_exists os (world s) p"
    and guard: "ensure_not_cwd os p s = (Return (), sg)"
    and rel: "relocate os p (preclean_git os p sg) = (target, s0)"
    and a1: "attempt_once os target s0 = (Failed e1, s1)"
    and a2: "attempt_once os target (snd (time_sleep os (delay * 1) s1)) = (Failed e2, s2)"
    and a3: "attempt_once os target (snd (time_sleep os (delay * 2) s2)) = (Gone, s3)"
    and d: "0 \<le> delay"
    and r: "3 \<le> retries"
  shows "safe_remove_tree os p retries delay ignore_errors s = (Return True, s3)
       \<and> sleeps (issued s s3) = [delay * 1, delay * 2]"
proof -
  have d2: "0 \<le> delay * 2" using d by simp
  obtain w1 where ts1: "time_sleep os delay s1 = (None, w1)"
    and tw1: "trace w1 = trace s1 @ [E_sleep (delay * 1)]"
    using time_sleep_nonneg [OF d, of os s1] by simp
  obtain w2 where ts2: "time_sleep os (delay * 2) s2 = (None, w2)"
    and tw2: "trace w2 = trace s2 @ [E_sleep (delay * 2)]"
    using time_sleep_nonneg [OF d2, of os s2] by simp
  have b2: "attempt_once os target w1 = (Failed e2, s2)"
    using a2 ts1 by simp
  have b3: "attempt_once os target w2 = (Gone, s3)"
    using a3 ts2 by simp
  have l3: "retry_loop os target delay 3 retries w2 = (Some (Return True), s3)"
    using b3 r by (simp add: retry_loop.simps [of os target delay 3])
  have l2: "retry_loop os target delay 2 retries w1 = (Some (Return True), s3)"
    using b2 ts2 l3 r by (simp add: retry_loop.simps [of os target delay 2])
  have l1: "retry_loop os target delay 1 retries s0 = (Some (Return True), s3)"
    using a1 ts1 l2 r by (simp add: retry_loop.simps [of os target delay 1])
  have result: "safe_remove_tree os p retries delay ignore_errors s = (Return True, s3)"
    using ex guard rel l1 by (simp add: safe_remove_tree_def delete_phase_def)
  have t0: "trace s0 = trace s @ issued s s0" and n0: "sleeps (issued s s0) = []"
    using no_sleep_trace [OF prelude_no_sleep [OF guard rel]] by simp_all
  have t1: "trace s1 = trace s0 @ issued s0 s1" and n1: "sleeps (issued s0 s1) = []"
    using no_sleep_trace [OF attempt_once_no_sleep [OF a1]] by simp_all
  have t2: "trace s2 = trace w1 @ issued w1 s2" and n2: "sleeps (issued w1 s2) = []"
    using no_sleep_trace [OF attempt_once_no_sleep [OF b2]] by simp_all
  have t3: "trace s3 = trace w2 @ issued w2 s3" and n3: "sleeps (issued w2 s3) = []"
    using no_sleep_trace [OF attempt_once_no_sleep [OF b3]] by simp_all
  have "trace s3 = trace s @ (issued s s0 @ issued s0 s1 @ [E_sleep (delay * 1)]
          @ issued w1 s2 @ [E_sleep (delay * 2)] @ issued w2 s3)"
    using t0 t1 tw1 t2 tw2 t3 by simp
  then have "issued s s3 = issued s s0 @ issued s0 s1 @ [E_sleep (delay * 1)]
          @ issued w1 s2 @ [E_sleep (delay * 2)] @ issued w2 s3"
    by (simp add: issued_def [of s s3])
  then have "sleeps (issued s s3) = [delay * 1, delay * 2]"
    using n0 n1 n2 n3 by (simp add: sleeps_append)
  with result show ?thesis by simp
qed

text \<open>
  The scenario of the specification on the small file system: \<open>D\<close> with one file, under a
  lock that two sleeps outlast, \<^verbatim>\<open>retries=3\<close>, \<^verbatim>\<open>delay=0.1\<close>.
\<close>

theorem backoff_after_two_failures_witness:
  "fst (safe_remove_tree (fs_env False) ''D'' 3 (1 / 10) True
          (fs_state [''D'', ''D/a''] [] [] 2 (Some ''/home'') True True)) = Return True
   \<and> sleeps (issued (fs_state [''D'', ''D/a''] [] [] 2 (Some ''/home'') True True)
        (snd (safe_remove_tree (fs_env False) ''D'' 3 (1 / 10) True
          (fs_state [''D'', ''D/a''] [] [] 2 (Some ''/home'') True True)))) = [1 / 10, 1 / 5]"
proof -
  let ?E = "fs_env False"
  let ?S = "fs_state [''D'', ''D/a''] [] [] 2 (Some ''/home'') True True"
  let ?T = "''/tmp/build-trash-a''"
  let ?s0 = "snd (relocate ?E ''D'' (preclean_git ?E ''D'' ?S))"
  let ?s1 = "snd (attempt_once ?E ?T ?s0)"
  let ?s2 = "snd (attempt_once ?E ?T (snd (time_sleep ?E (1 / 10 * 1) ?s1)))"
  let ?s3 = "snd (attempt_once ?E ?T (snd (time_sleep ?E (1 / 10 * 2) ?s2)))"
  have ex: "path_exists ?E (world ?S) ''D''"
    by code_simp
  have guard: "ensure_not_cwd ?E ''D'' ?S = (Return (), ?S)"
    by code_simp
  have rel: "relocate ?E ''D'' (preclean_git ?E ''D'' ?S) = (?T, ?s0)"
    by code_simp
  have a1: "attempt_once ?E ?T ?s0 = (Failed OSError, ?s1)"
    by code_simp
  have a2: "attempt_once ?E ?T (snd (time_sleep ?E (1 / 10 * 1) ?s1)) = (Failed OSError, ?s2)"
    by code_simp
  have a3: "attempt_once ?E ?T (snd (time_sleep ?E (1 / 10 * 2) ?s2)) = (Gone, ?s3)"
    by code_simp
  have "safe_remove_tree ?E ''D'' 3 (1 / 10) True ?S = (Return True, ?s3)
        \<and> sleeps (issued ?S ?s3) = [1 / 10 * 1, 1 / 10 * 2]"
    by (rule backoff_after_two_failures [OF ex guard rel a1 a2 a3]) simp_all
  then show ?thesis by simp
qed

section \<open>Relocation\<close>

lemma syscall_result:
  "fst (syscall ev f s) = fst (f (world s))"
  "world (snd (syscall ev f s)) = snd (f (world s))"
  by (simp_all add: syscall_def split: prod.splits)


lemma issued_append [simp]:
  "issued s \<lparr>world = w, trace = trace s @ new\<rparr> = new"
  by (simp add: issued_def)

lemma safe_remove_tree_phases:
  assumes "path_exists os (world s) p"
    and "ensure_not_cwd os p s = (Return (), sg)"
    and "relocate os p (preclean_git os p sg) = (target, s2)"
  shows "safe_remove_tree os p retries delay ignore_errors s
         = delete_phase os p target retries delay ignore_errors s2"
  using assms by (simp add: safe_remove_tree_def)



section \<open>The pre-clean of version-control metadata\<close>

lemma rmtrees_append: "rmtrees (xs @ ys) = rmtrees xs @ rmtrees ys"
  by (induction xs rule: rmtrees.induct) simp_all

lemma rmtrees_subset:
  assumes "list_all P es" and "\<And>q. P (E_rmtree q) \<Longrightarrow> q \<in> A"
  shows "set (rmtrees es) \<subseteq> A"
  using assms(1)
proof (induction es rule: rmtrees.induct)
  case 1
  show ?case by simp
next
  case (2 q es)
  then show ?case using assms(2) by simp
qed simp_all

lemma grows_rmtrees:
  assumes "grows P s s'" and "\<And>q. P (E_rmtree q) \<Longrightarrow> q \<in> A"
  shows "set (rmtrees (issued s s')) \<subseteq> A"
  using rmtrees_subset [OF grows_issued [OF assms(1)]] assms(2) by blast

text \<open>
  C7, as stated: the deletion phase has a pre-clean of its own, on the \<^verbatim>\<open>.git\<close>
  directly under the relocated target, before its attempts begin. It has none. \<open>D/.git\<close> is
  held open, so the pre-clean before the relocation fails; the rename moves \<open>D\<close> with its
  \<open>.git\<close> to the trash location; the deletion phase starts with \<^verbatim>\<open>shutil.rmtree\<close> on
  the whole target, and no \<^verbatim>\<open>shutil.rmtree\<close> on the target's \<open>.git\<close> is ever issued.
\<close>

theorem no_preclean_on_relocated_target:
  "relocate (fs_env False) ''D''
     (preclean_git (fs_env False) ''D''
        (fs_state [''D'', ''D/.git''] [] [''D/.git''] 0 (Some ''/home'') True True))
   = (''/tmp/build-trash-a'',
      \<lparr>world = \<lparr>entries = [''/tmp/build-trash-a'', ''/tmp/build-trash-a/.git''], readonly = [],
                 held = [''/tmp/build-trash-a/.git''], busy = 0, cwd = Some ''/home'',
                 rename_ok = True, move_ok = True, uuids = 1\<rparr>,
        trace = [E_rmtree ''D/.git'', E_call os_rmdir ''D/.git'', E_chmod ''D/.git'',
                 E_call os_rmdir ''D/.git'', E_rename ''D'' ''/tmp/build-trash-a'']\<rparr>)
   \<and> rmtrees (trace (snd (safe_remove_tree (fs_env False) ''D'' 5 (1 / 2) True
        (fs_state [''D'', ''D/.git''] [] [''D/.git''] 0 (Some ''/home'') True True))))
     = [''D/.git'', ''/tmp/build-trash-a'', ''/tmp/build-trash-a'', ''/tmp/build-trash-a'',
        ''/tmp/build-trash-a'', ''/tmp/build-trash-a'']
   \<and> take 7 (trace (snd (safe_remove_tree (fs_env False) ''D'' 5 (1 / 2) True
        (fs_state [''D'', ''D/.git''] [] [''D/.git''] 0 (Some ''/home'') True True))))
     = [E_rmtree ''D/.git'', E_call os_rmdir ''D/.git'', E_chmod ''D/.git'',
        E_call os_rmdir ''D/.git'', E_rename ''D'' ''/tmp/build-trash-a'',
        E_rmtree ''/tmp/build-trash-a'', E_call os_unlink ''/tmp/build-trash-a/.git'']"
  by code_simp

text \<open>
  C7, amended: \<^verbatim>\<open>safe_remove_tree\<close> removes the \<^verbatim>\<open>.git\<close> directly under the original
  path, if there is one, once and before the relocation, and ignores a failure of that
  removal. The deletion phase has no pre-clean of its own: every \<^verbatim>\<open>shutil.rmtree\<close> it
  issues is on the deletion target itself.
\<close>

theorem preclean_once_before_relocation:
  assumes ex: "path_exists os (world s) p"
    and guard: "ensure_not_cwd os p s = (Return (), sg)"
    and rel: "relocate os p (preclean_git os p sg) = (target, s2)"
  shows
    "preclean_git os p sg
       = (if path_exists os (world sg) (path_join os p ''.git'')
          then snd (shutil_rmtree os (on_rm_error os) (path_join os p ''.git'') sg)
          else sg)
     \<and> set (rmtrees (issued sg s2)) \<subseteq> {path_join os p ''.git''}
     \<and> safe_remove_tree os p retries delay ignore_errors s
         = delete_phase os p target retries delay ignore_errors s2
     \<and> set (rmtrees (issued s2 (snd (delete_phase os p target retries delay ignore_errors s2))))
         \<subseteq> {target}"
proof -
  let ?git = "path_join os p ''.git''"
  let ?s1 = "preclean_git os p sg"
  let ?t = "trash_path_of os (world ?s1)"
  let ?P = "\<lambda>e. (e = E_rmtree ?git \<or> is_entry_call e) \<or> (e = E_rename p ?t \<or> e = E_move p ?t)"
  have "grows ?P sg ?s1"
    by (rule grows_mono [OF preclean_git_grows]) simp
  moreover have "grows (\<lambda>e. e = E_rename p ?t \<or> e = E_move p ?t) ?s1 s2"
    using relocate_grows [of p os ?s1] rel by simp
  then have "grows ?P ?s1 s2"
    by (rule grows_mono) simp
  ultimately have "grows ?P sg s2"
    by (rule grows_trans)
  then have before: "set (rmtrees (issued sg s2)) \<subseteq> {?git}"
    by (rule grows_rmtrees) auto
  have after: "set (rmtrees (issued s2 (snd (delete_phase os p target retries delay ignore_errors s2))))
      \<subseteq> {target}"
    by (rule grows_rmtrees [OF delete_phase_grows]) simp
  show ?thesis
    using before after safe_remove_tree_phases [OF ex guard rel]
    by (simp add: preclean_git_def Let_def)
qed

theorem preclean_once_before_relocation_witness:
  "set (rmtrees (issued (fs_state [''D'', ''D/.git''] [] [''D/.git''] 0 (Some ''/home'') True True)
          (snd (relocate (fs_env False) ''D''
             (preclean_git (fs_env False) ''D''
                (fs_state [''D'', ''D/.git''] [] [''D/.git''] 0 (Some ''/home'') True True))))))
     \<subseteq> {''D/.git''}
   \<and> set (rmtrees (issued
          (snd (relocate (fs_env False) ''D''
             (preclean_git (fs_env False) ''D''
                (fs_state [''D'', ''D/.git''] [] [''D/.git''] 0 (Some ''/home'') True True))))
          (snd (delete_phase (fs_env False) ''D'' ''/tmp/build-trash-a'' 5 (1 / 2) True
             (snd (relocate (fs_env False) ''D''
                (preclean_git (fs_env False) ''D''
                   (fs_state [''D'', ''D/.git''] [] [''D/.git''] 0 (Some ''/home'') True True))))))))
     \<subseteq> {''/tmp/build-trash-a''}"
proof -
  let ?E = "fs_env False"
  let ?S = "fs_state [''D'', ''D/.git''] [] [''D/.git''] 0 (Some ''/home'') True True"
  let ?T = "''/tmp/build-trash-a''"
  let ?s2 = "snd (relocate ?E ''D'' (preclean_git ?E ''D'' ?S))"
  have ex: "path_exists ?E (world ?S) ''D''"
    by code_simp
  have guard: "ensure_not_cwd ?E ''D'' ?S = (Return (), ?S)"
    by code_simp
  have rel: "relocate ?E ''D'' (preclean_git ?E ''D'' ?S) = (?T, ?s2)"
    by code_simp
  have git: "path_join ?E ''D'' ''.git'' = ''D/.git''"
    by code_simp
  note r = preclean_once_before_relocation [OF ex guard rel, of 5 "1 / 2" True, unfolded git]
  show ?thesis
    using r by blast
qed

section \<open>Read-only entries\<close>

lemma on_rm_error_eq:
  "on_rm_error os f q s =
     (fst (os_call os f q (snd (os_chmod_write os q (world s)))),
      \<lparr>world = snd (os_call os f q (snd (os_chmod_write os q (world s)))),
       trace = trace s @ [E_chmod q, E_call f q]\<rparr>)"
  by (simp add: on_rm_error_def syscall_def split: prod.splits)

lemma rmtree_ops_returns_iff:
  "fst (rmtree_ops os (on_rm_error os) ops s) = None
   \<longleftrightarrow> only_readonly_obstacles os ops (world s)"
proof (induction ops arbitrary: s)
  case Nil
  show ?case by simp
next
  case (Cons op ops)
  obtain f q where op: "op = (f, q)" by (cases op)
  obtain r w1 where c: "os_call os f q (world s) = (r, w1)"
    by (cases "os_call os f q (world s)")
  let ?s1 = "\<lparr>world = w1, trace = trace s @ [E_call f q]\<rparr>"
  have sc: "syscall (E_call f q) (os_call os f q) s = (r, ?s1)"
    using c by (simp add: syscall_def)
  show ?case
  proof (cases r)
    case None
    then show ?thesis
      using op c sc Cons.IH [of ?s1] by simp
  next
    case (Some e)
    obtain r' w2 where c': "os_call os f q (snd (os_chmod_write os q w1)) = (r', w2)"
      by (cases "os_call os f q (snd (os_chmod_write os q w1))")
    let ?s2 = "\<lparr>world = w2, trace = trace ?s1 @ [E_chmod q, E_call f q]\<rparr>"
    have h: "on_rm_error os f q ?s1 = (r', ?s2)"
      using c' by (simp add: on_rm_error_eq)
    show ?thesis
      using op c sc Some c' h Cons.IH [of ?s2] by (cases r') simp_all
  qed
qed

lemma shutil_rmtree_returns_iff:
  "fst (shutil_rmtree os (on_rm_error os) p s) = None
   \<longleftrightarrow> only_readonly_obstacles os (rmtree_plan os (world s) p) (world s)"
  by (simp add: shutil_rmtree_def rmtree_ops_returns_iff)

text \<open>
  C8. The hook: \<^verbatim>\<open>_on_rm_error(func, path, _)\<close> issues \<^verbatim>\<open>os.chmod(path, S_IWRITE)\<close>
  and one more \<^verbatim>\<open>func(path)\<close> on the entry that failed, nothing else; what the
  \<^verbatim>\<open>chmod\<close> returns or raises is dropped, and the hook raises exactly what this one
  retry raises. A walk of \<^verbatim>\<open>shutil.rmtree\<close> with the hook returns if and only if
  every call on an entry succeeds at once or at its retry after the \<^verbatim>\<open>chmod\<close>.

  The directory: it exists, the guard returns, and on the walk over the deletion target
  the read-only attribute is the only obstacle (\<open>only_readonly_obstacles\<close>); a walk
  that completes leaves no target. Then, with at least one attempt allowed,
  \<^verbatim>\<open>safe_remove_tree\<close> returns true, on every platform and for both values of
  \<^verbatim>\<open>ignore_errors\<close>, and nothing is slept.
\<close>

theorem readonly_entries_are_repaired:
  assumes ex: "path_exists os (world s) p"
    and guard: "ensure_not_cwd os p s = (Return (), sg)"
    and rel: "relocate os p (preclean_git os p sg) = (target, s0)"
    and ro: "only_readonly_obstacles os (rmtree_plan os (world s0) target) (world s0)"
    and removed: "\<not> path_exists os (world (snd (shutil_rmtree os (on_rm_error os) target s0))) target"
    and r: "1 \<le> retries"
  shows
    "on_rm_error os f q s' =
       (fst (os_call os f q (snd (os_chmod_write os q (world s')))),
        \<lparr>world = snd (os_call os f q (snd (os_chmod_write os q (world s')))),
         trace = trace s' @ [E_chmod q, E_call f q]\<rparr>)
     \<and> (fst (rmtree_ops os (on_rm_error os) ops s') = None
          \<longleftrightarrow> only_readonly_obstacles os ops (world s'))
     \<and> fst (safe_remove_tree os p retries delay ignore_errors s) = Return True
     \<and> sleeps (issued s (snd (safe_remove_tree os p retries delay ignore_errors s))) = []"
proof -
  obtain a s1 where att: "attempt_once os target s0 = (a, s1)"
    by (cases "attempt_once os target s0")
  have gone: "a = Gone"
  proof (cases "path_exists os (world s0) target")
    case True
    obtain x s1' where w: "shutil_rmtree os (on_rm_error os) target s0 = (x, s1')"
      by (cases "shutil_rmtree os (on_rm_error os) target s0")
    have "x = None"
      using shutil_rmtree_returns_iff [of os target s0] ro w by simp
    then show ?thesis
      using True w removed att by (simp add: attempt_once_def)
  next
    case False
    then show ?thesis
      using att by (simp add: attempt_once_def)
  qed
  have loop: "retry_loop os target delay 1 retries s0 = (Some (Return True), s1)"
    using att gone r by (simp add: retry_loop.simps [of os target delay 1])
  have result: "safe_remove_tree os p retries delay ignore_errors s = (Return True, s1)"
    using safe_remove_tree_phases [OF ex guard rel] loop by (simp add: delete_phase_def)
  have g: "grows (\<lambda>e. \<not> is_sleep e) s s1"
    using grows_trans [OF prelude_no_sleep [OF guard rel] attempt_once_no_sleep [OF att]] .
  have "sleeps (issued s s1) = []"
    using no_sleep_trace(2) [OF g] .
  then show ?thesis
    using result by (simp add: on_rm_error_eq rmtree_ops_returns_iff)
qed

text \<open>
  On the small file system: the working directory is \<open>D\<close> itself, the rename fails across
  devices, and both files of \<open>D\<close> are read-only.
\<close>

theorem readonly_entries_are_repaired_witness:
  "only_readonly_obstacles (fs_env False)
     (rmtree_plan (fs_env False)
        (world (snd (relocate (fs_env False) ''D''
           (preclean_git (fs_env False) ''D''
              (snd (ensure_not_cwd (fs_env False) ''D''
                 (fs_state [''D'', ''D/a'', ''D/b''] [''D/a'', ''D/b''] [] 0 (Some ''D'')
                    False True)))))))
        ''/tmp/build-trash-a'')
     (world (snd (relocate (fs_env False) ''D''
        (preclean_git (fs_env False) ''D''
           (snd (ensure_not_cwd (fs_env False) ''D''
              (fs_state [''D'', ''D/a'', ''D/b''] [''D/a'', ''D/b''] [] 0 (Some ''D'')
                 False True)))))))
   \<and> fst (safe_remove_tree (fs_env False) ''D'' 5 (1 / 2) True
        (fs_state [''D'', ''D/a'', ''D/b''] [''D/a'', ''D/b''] [] 0 (Some ''D'') False True))
     = Return True
   \<and> trace (snd (safe_remove_tree (fs_env False) ''D'' 5 (1 / 2) True
        (fs_state [''D'', ''D/a'', ''D/b''] [''D/a'', ''D/b''] [] 0 (Some ''D'') False True)))
     = [E_chdir ''/tmp'',
        E_rename ''D'' ''/tmp/build-trash-a'',
        E_move ''D'' ''/tmp/build-trash-a'',
        E_rmtree ''/tmp/build-trash-a'',
        E_call os_unlink ''/tmp/build-trash-a/b'',
        E_chmod ''/tmp/build-trash-a/b'',
        E_call os_unlink ''/tmp/build-trash-a/b'',
        E_call os_unlink ''/tmp/build-trash-a/a'',
        E_chmod ''/tmp/build-trash-a/a'',
        E_call os_unlink ''/tmp/build-trash-a/a'',
        E_call os_rmdir ''/tmp/build-trash-a'']"
proof -
  let ?E = "fs_env False"
  let ?S = "fs_state [''D'', ''D/a'', ''D/b''] [''D/a'', ''D/b''] [] 0 (Some ''D'') False True"
  let ?T = "''/tmp/build-trash-a''"
  let ?sg = "snd (ensure_not_cwd ?E ''D'' ?S)"
  let ?s0 = "snd (relocate ?E ''D'' (preclean_git ?E ''D'' ?sg))"
  have ex: "path_exists ?E (world ?S) ''D''"
    by code_simp
  have guard: "ensure_not_cwd ?E ''D'' ?S = (Return (), ?sg)"
    by code_simp
  have rel: "relocate ?E ''D'' (preclean_git ?E ''D'' ?sg) = (?T, ?s0)"
    by code_simp
  have ro: "only_readonly_obstacles ?E (rmtree_plan ?E (world ?s0) ?T) (world ?s0)"
    by code_simp
  have removed: "\<not> path_exists ?E (world (snd (shutil_rmtree ?E (on_rm_error ?E) ?T ?s0))) ?T"
    by code_simp
  have run: "trace (snd (safe_remove_tree ?E ''D'' 5 (1 / 2) True ?S))
     = [E_chdir ''/tmp'',
        E_rename ''D'' ''/tmp/build-trash-a'',
        E_move ''D'' ''/tmp/build-trash-a'',
        E_rmtree ''/tmp/build-trash-a'',
        E_call os_unlink ''/tmp/build-trash-a/b'',
        E_chmod ''/tmp/build-trash-a/b'',
        E_call os_unlink ''/tmp/build-trash-a/b'',
        E_call os_unlink ''/tmp/build-trash-a/a'',
        E_chmod ''/tmp/build-trash-a/a'',
        E_call os_unlink ''/tmp/build-trash-a/a'',
        E_call os_rmdir ''/tmp/build-trash-a'']"
    by code_simp
  have "fst (safe_remove_tree ?E ''D'' 5 (1 / 2) True ?S) = Return True"
    using readonly_entries_are_repaired
      [where retries = 5 and delay = "1 / 2" and ignore_errors = True, OF ex guard rel ro removed]
    by simp
  then show ?thesis
    using ro run by blast
qed

section \<open>A walk that is cut short\<close>

lemma retry_loop_never_raises:
  assumes "0 \<le> delay" and "0 \<le> attempt"
  shows "fst (retry_loop os t delay attempt retries s) \<noteq> Some (Raise e)"
  using assms
proof (induction os t delay attempt retries s rule: retry_loop.induct)
  case (1 os t delay attempt retries s)
  show ?case
  proof (cases "retries < attempt")
    case True
    then show ?thesis by (simp add: retry_loop.simps)
  next
    case False
    obtain a s1 where a: "attempt_once os t s = (a, s1)"
      by (cases "attempt_once os t s")
    have next_ok: "0 \<le> attempt + 1" using "1.prems" by simp
    show ?thesis
    proof (cases a)
      case Gone
      then show ?thesis using False a by (simp add: retry_loop.simps [of os t delay attempt])
    next
      case Still
      then show ?thesis
        using False a "1.IH"(1) [OF False a [symmetric, unfolded Still] refl "1.prems"(1) next_ok]
        by (simp add: retry_loop.simps [of os t delay attempt])
    next
      case (Failed x)
      have nonneg: "0 \<le> delay * of_int attempt" using "1.prems" by simp
      obtain s2 where sl: "time_sleep os (delay * of_int attempt) s1 = (None, s2)"
        using time_sleep_nonneg [OF nonneg, of os s1] by simp
      show ?thesis
        using False a Failed sl
          "1.IH"(2) [OF False a [symmetric, unfolded Failed] refl sl [symmetric] refl
                        "1.prems"(1) next_ok]
        by (simp add: retry_loop.simps [of os t delay attempt])
    qed
  qed
qed

lemma delete_phase_defaults_return:
  "\<exists>b. fst (delete_phase os p t retries (1 / 2) True s) = Return b"
proof -
  obtain r s1 where l: "retry_loop os t (1 / 2) 1 retries s = (r, s1)"
    by (cases "retry_loop os t (1 / 2) 1 retries s")
  show ?thesis
  proof (cases r)
    case None
    then show ?thesis
      using l by (auto simp: delete_phase_def give_up_def split: prod.splits option.splits)
  next
    case (Some out)
    have "out \<noteq> Raise e" for e
      using retry_loop_never_raises [of "1 / 2" 1 os t retries s e] l Some by simp
    then obtain b where "out = Return b"
      by (cases out) auto
    then show ?thesis
      using l Some by (simp add: delete_phase_def)
  qed
qed

lemma safe_remove_tree_defaults_return:
  assumes "path_cwd_resolve os (world s) = Inr c"
  shows "\<exists>b. fst (safe_remove_tree os p retries (1 / 2) True s) = Return b"
proof (cases "path_exists os (world s) p")
  case False
  then have "fst (safe_remove_tree os p retries (1 / 2) True s) = Return True"
    by (simp add: safe_remove_tree_def)
  then show ?thesis by blast
next
  case True
  obtain sg where g: "ensure_not_cwd os p s = (Return (), sg)"
    using ensure_not_cwd_swallows [OF assms, of p] by (cases "ensure_not_cwd os p s") simp
  obtain target s2 where rel: "relocate os p (preclean_git os p sg) = (target, s2)"
    by (cases "relocate os p (preclean_git os p sg)")
  show ?thesis
    using safe_remove_tree_phases [OF True g rel, of retries "1 / 2" True]
      delete_phase_defaults_return [of os p target retries s2]
    by simp
qed

lemma remove_all_returns:
  assumes "\<And>w. \<exists>c. path_cwd_resolve os w = Inr c"
  shows "fst (remove_all os ds s) = Return ()"
proof (induction ds arbitrary: s)
  case Nil
  show ?case by simp
next
  case (Cons d ds)
  obtain c where "path_cwd_resolve os (world s) = Inr c"
    using assms by blast
  then obtain b where "fst (safe_remove_tree os d 5 (1 / 2) True s) = Return b"
    using safe_remove_tree_defaults_return by blast
  then show ?case
    using Cons.IH by (cases "safe_remove_tree os d 5 (1 / 2) True s") simp
qed

lemma cleanup_example_when_cwd_resolves:
  assumes "\<And>w. \<exists>c. path_cwd_resolve os w = Inr c"
  shows "cleanup_build_files os (Some example_tree) s
         = (Return (),
            snd (safe_remove_tree os ''B'' 5 (1 / 2) True
                   (snd (safe_remove_tree os ''A'' 5 (1 / 2) True s))))"
proof -
  obtain ca where "path_cwd_resolve os (world s) = Inr ca"
    using assms by blast
  then obtain ba sa where a: "safe_remove_tree os ''A'' 5 (1 / 2) True s = (Return ba, sa)"
    using safe_remove_tree_defaults_return [of os s ca "''A''" 5]
    by (cases "safe_remove_tree os ''A'' 5 (1 / 2) True s") auto
  obtain cb where "path_cwd_resolve os (world sa) = Inr cb"
    using assms by blast
  then obtain bb sb where b: "safe_remove_tree os ''B'' 5 (1 / 2) True sa = (Return bb, sb)"
    using safe_remove_tree_defaults_return [of os sa cb "''B''" 5]
    by (cases "safe_remove_tree os ''B'' 5 (1 / 2) True sa") auto
  show ?thesis
    using a b by (simp add: cleanup_flat example_tree_def)
qed

lemma cleanup_returns_when_cwd_resolves:
  assumes "\<And>w. \<exists>c. path_cwd_resolve os w = Inr c"
  shows "fst (cleanup_build_files os r s) = Return ()"
  using remove_all_returns [OF assms] by (simp add: cleanup_flat)

text \<open>
  C9. The claim: on the example tree \<^verbatim>\<open>cleanup_build_files\<close> passes exactly the paths
  \<open>A\<close> and \<open>B\<close> to \<^verbatim>\<open>safe_remove_tree\<close>. The call on line 114 is not protected, and
  \<^verbatim>\<open>safe_remove_tree\<close> raises, whatever \<^verbatim>\<open>ignore_errors\<close> is, when its guard cannot
  determine the working directory (line 31 is before the \<^verbatim>\<open>try\<close>). Here \<open>A\<close> and \<open>B\<close>
  exist and the working directory has been deleted: the call on \<open>A\<close> raises, the walk ends
  there, \<open>B\<close> is never passed to \<^verbatim>\<open>safe_remove_tree\<close>, nothing has been issued and both
  directories are still there.
\<close>

theorem cleanup_walk_cut_short_by_guard:
  "cleanup_build_files (fs_env True) (Some example_tree)
     (fs_state [''A'', ''B''] [] [] 0 None True True)
   = (Raise OSError, fs_state [''A'', ''B''] [] [] 0 None True True)
   \<and> safe_remove_tree (fs_env True) ''A'' 5 (1 / 2) True
       (fs_state [''A'', ''B''] [] [] 0 None True True)
     = (Raise OSError, fs_state [''A'', ''B''] [] [] 0 None True True)
   \<and> path_exists (fs_env True) (world (fs_state [''A'', ''B''] [] [] 0 None True True)) ''B''"
  by code_simp

end
